theory Spec2Isabelle
  imports Complex_Main "HOL-Library.Product_Lexorder"
begin

section \<open>Arrays, tensors and errors\<close>

text \<open>
  The exceptions the program can raise: a failed \<^verbatim>\<open>assert\<close>, an index out of range
  (\<^verbatim>\<open>as_list()[-1]\<close>, \<^verbatim>\<open>get_shape()[3]\<close>), a \<^verbatim>\<open>ValueError\<close> (numpy refusing an
  argument, TensorFlow refusing \<^verbatim>\<open>None\<close>) and TensorFlow's \<^verbatim>\<open>InvalidArgumentError\<close>
  for incompatible shapes.
\<close>

datatype error = AssertionError | IndexError | ValueError | InvalidArgument

text \<open>
  A numpy array or a TensorFlow tensor: its static shape and its row-major buffer.
  Floating-point entries are modelled by the real numbers they denote; rounding is not
  modelled.
\<close>

record 'a ndarray =
  shape :: "nat list"
  buf :: "'a list"

definition wf :: "'a ndarray \<Rightarrow> bool" where
  "wf a = (length (buf a) = prod_list (shape a))"

definition tabulate2 :: "nat \<Rightarrow> nat \<Rightarrow> (nat \<Rightarrow> nat \<Rightarrow> 'a) \<Rightarrow> 'a list" where
  "tabulate2 R C f = concat (map (\<lambda>r. map (f r) [0..<C]) [0..<R])"

definition elem :: "'a list \<Rightarrow> nat \<Rightarrow> nat \<Rightarrow> nat \<Rightarrow> 'a" where
  "elem xs ncols r c = xs ! (r * ncols + c)"

definition bindS :: "error + 'a \<Rightarrow> ('a \<Rightarrow> error + 'b) \<Rightarrow> error + 'b" where
  "bindS m f = (case m of Inl e \<Rightarrow> Inl e | Inr a \<Rightarrow> f a)"

section \<open>The sketch matrix\<close>

text \<open>
  \<^verbatim>\<open>astype(np.int64)\<close> truncates toward zero. \<^verbatim>\<open>astype(np.float32)\<close> keeps every
  value that float32 represents exactly (\<open>+1\<close>, \<open>-1\<close>, small integers, dyadic fractions);
  as rounding is not modelled, it is the identity here, and the theorems below use it on
  such values only.
\<close>

definition trunc :: "real \<Rightarrow> int" where
  "trunc x = (if 0 \<le> x then \<lfloor>x\<rfloor> else \<lceil>x\<rceil>)"

definition astype_int64 :: "real ndarray \<Rightarrow> int ndarray" where
  "astype_int64 a = \<lparr>shape = shape a, buf = map trunc (buf a)\<rparr>"

definition astype_float32 :: "real ndarray \<Rightarrow> real ndarray" where
  "astype_float32 a = a"

text \<open>
  \<^verbatim>\<open>tf.sparse.SparseTensor(indices, values, dense_shape)\<close> with two index columns, and
  \<^verbatim>\<open>tf.sparse.reorder\<close>, which sorts the entries into row-major order.
\<close>

record sparse_tensor =
  indices :: "(int \<times> int) list"
  vals :: "real list"
  dense_shape :: "nat list"

definition sparse_reorder :: "sparse_tensor \<Rightarrow> sparse_tensor" where
  "sparse_reorder M =
     (let es = sort_key fst (zip (indices M) (vals M))
      in \<lparr>indices = map fst es, vals = map snd es, dense_shape = dense_shape M\<rparr>)"

text \<open>
  \<^verbatim>\<open>_generate_sketch_matrix(rand_h, rand_s, output_dim)\<close>. The first assertion reads
  \<^verbatim>\<open>len\<close> only when both arrays are one-dimensional (\<^verbatim>\<open>and\<close> short-circuits).
\<close>

definition generate_sketch_matrix ::
    "real ndarray \<Rightarrow> real ndarray \<Rightarrow> nat \<Rightarrow> error + sparse_tensor" where
  "generate_sketch_matrix rand_h0 rand_s0 output_dim =
     (let rand_h = astype_int64 rand_h0;
          rand_s = astype_float32 rand_s0
      in case (shape rand_h, shape rand_s) of
           ([len_h], [len_s]) \<Rightarrow>
             if len_h \<noteq> len_s then Inl AssertionError
             else if \<not> (list_all (\<lambda>x. 0 \<le> x) (buf rand_h) \<and>
                        list_all (\<lambda>x. x < int output_dim) (buf rand_h))
               then Inl AssertionError
             else
               let input_dim = len_h;
                   idx = zip (map int [0..<input_dim]) (buf rand_h)
               in Inr (sparse_reorder
                    \<lparr>indices = idx, vals = buf rand_s,
                     dense_shape = [input_dim, output_dim]\<rparr>)
         | _ \<Rightarrow> Inl AssertionError)"

section \<open>The global generator and the console\<close>

text \<open>
  numpy's global generator is a parameter of the model: \<open>np_seed s\<close> is the state
  \<^verbatim>\<open>np.random.seed(s)\<close> installs, \<open>np_randint high n g\<close> the \<open>n\<close> draws of
  \<^verbatim>\<open>np.random.randint(high, size=n)\<close> from state \<open>g\<close> and the state after them.
  For an empty size numpy returns the empty array at once, before it looks at the bound
  or at the generator; otherwise a bound that is not positive is a \<^verbatim>\<open>ValueError\<close>, as
  is a seed outside \<open>[0, 2^32)\<close>.
  The world a call runs in holds the generator's state and what was printed.
\<close>

record 'g numpy_random =
  np_seed :: "nat \<Rightarrow> 'g"
  np_randint :: "nat \<Rightarrow> nat \<Rightarrow> 'g \<Rightarrow> nat list \<times> 'g"

record 'g world =
  rng :: 'g
  stdout :: "real ndarray list"

definition bindE ::
    "('w \<Rightarrow> (error + 'a) \<times> 'w) \<Rightarrow> ('a \<Rightarrow> 'w \<Rightarrow> (error + 'b) \<times> 'w) \<Rightarrow>
     'w \<Rightarrow> (error + 'b) \<times> 'w" where
  "bindE m f w = (case m w of (Inl e, w') \<Rightarrow> (Inl e, w') | (Inr a, w') \<Rightarrow> f a w')"

definition random_seed ::
    "'g numpy_random \<Rightarrow> nat \<Rightarrow> 'g world \<Rightarrow> (error + unit) \<times> 'g world" where
  "random_seed G s w =
     (if s < 2 ^ 32 then (Inr (), w\<lparr>rng := np_seed G s\<rparr>) else (Inl ValueError, w))"

definition random_randint ::
    "'g numpy_random \<Rightarrow> nat \<Rightarrow> nat \<Rightarrow> 'g world \<Rightarrow> (error + nat list) \<times> 'g world" where
  "random_randint G high n w =
     (if n = 0 then (Inr [], w)
      else if high = 0 then (Inl ValueError, w)
      else (Inr (fst (np_randint G high n (rng w))),
            w\<lparr>rng := snd (np_randint G high n (rng w))\<rparr>))"

section \<open>TensorFlow operations\<close>

text \<open>
  \<^verbatim>\<open>tf.reshape(t, [-1] + rest)\<close>: the leading dimension is inferred. When no requested
  dimension is 0, the number of elements must be a multiple of their product. When some
  requested dimension is 0, the tensor must be empty, and the leading dimension is
  inferred from the nonzero dimensions on both sides.
\<close>

definition tf_reshape_infer :: "'a ndarray \<Rightarrow> nat list \<Rightarrow> error + 'a ndarray" where
  "tf_reshape_infer t rest =
     (let n = length (buf t); m = prod_list rest
      in if m = 0 then
           (if n = 0 then
              Inr \<lparr>shape = (prod_list (filter (\<lambda>d. d \<noteq> 0) (shape t))
                               div prod_list (filter (\<lambda>d. d \<noteq> 0) rest)) # rest,
                   buf = buf t\<rparr>
            else Inl InvalidArgument)
         else if n mod m = 0 then Inr \<lparr>shape = (n div m) # rest, buf = buf t\<rparr>
         else Inl InvalidArgument)"

text \<open>
  \<^verbatim>\<open>tf.sparse.sparse_dense_matmul(sp, b, adjoint_a=True, adjoint_b=True)\<close>: the product
  of the transposed sparse matrix with the transposed dense one. For a sparse matrix of
  dense shape \<open>[I, D]\<close> and a dense \<open>[N, C]\<close> matrix the result is \<open>[D, N]\<close>; every
  stored entry \<open>((i, j), v)\<close> adds \<open>v * b[n, i]\<close> to \<open>out[j, n]\<close>.
\<close>

definition sparse_dense_matmul :: "sparse_tensor \<Rightarrow> real ndarray \<Rightarrow> error + real ndarray" where
  "sparse_dense_matmul sp b =
     (case (dense_shape sp, shape b) of
        ([I, D], [N, C]) \<Rightarrow>
          if I \<noteq> C then Inl InvalidArgument
          else if \<not> list_all (\<lambda>(i, j). 0 \<le> i \<and> i < int I \<and> 0 \<le> j \<and> j < int D) (indices sp)
            then Inl InvalidArgument
          else Inr \<lparr>shape = [D, N],
                   buf = tabulate2 D N (\<lambda>d n.
                     sum_list (map (\<lambda>((i, j), v).
                                 if j = int d then v * elem (buf b) C n (nat i) else 0)
                               (zip (indices sp) (vals sp))))\<rparr>
      | _ \<Rightarrow> Inl InvalidArgument)"

text \<open>\<^verbatim>\<open>tf.transpose\<close>, applied here only to the rank-2 result of the product.\<close>

definition tf_transpose :: "'a ndarray \<Rightarrow> 'a ndarray" where
  "tf_transpose t =
     (case shape t of
        [r, c] \<Rightarrow> \<lparr>shape = [c, r], buf = tabulate2 c r (\<lambda>i j. elem (buf t) c j i)\<rparr>
      | _ \<Rightarrow> t)"

definition tf_zeros_like :: "real ndarray \<Rightarrow> real ndarray" where
  "tf_zeros_like t = \<lparr>shape = shape t, buf = map (\<lambda>_. 0) (buf t)\<rparr>"

definition tf_complex :: "real ndarray \<Rightarrow> real ndarray \<Rightarrow> complex ndarray" where
  "tf_complex re im = \<lparr>shape = shape re, buf = map2 Complex (buf re) (buf im)\<rparr>"

text \<open>
  \<^verbatim>\<open>tf.signal.fft\<close> and \<^verbatim>\<open>tf.signal.ifft\<close>: the discrete Fourier transform and its
  inverse along the innermost dimension, row by row.
\<close>

definition tf_fft :: "complex ndarray \<Rightarrow> complex ndarray" where
  "tf_fft t =
     (let D = last (shape t); N = length (buf t) div D
      in \<lparr>shape = shape t,
          buf = tabulate2 N D (\<lambda>n k.
                  \<Sum>j<D. elem (buf t) D n j * cis (- (2 * pi * real j * real k / real D)))\<rparr>)"

definition tf_ifft :: "complex ndarray \<Rightarrow> complex ndarray" where
  "tf_ifft t =
     (let D = last (shape t); N = length (buf t) div D
      in \<lparr>shape = shape t,
          buf = tabulate2 N D (\<lambda>n k.
                  (\<Sum>j<D. elem (buf t) D n j * cis (2 * pi * real j * real k / real D))
                    / of_nat D)\<rparr>)"

text \<open>\<^verbatim>\<open>_fft\<close> and \<^verbatim>\<open>_ifft\<close>: a bare \<^verbatim>\<open>return\<close> yields \<^verbatim>\<open>None\<close>.\<close>

definition fft :: "complex ndarray \<Rightarrow> bool \<Rightarrow> complex ndarray option" where
  "fft bottom sequential = (if sequential then None else Some (tf_fft bottom))"

definition ifft :: "complex ndarray \<Rightarrow> bool \<Rightarrow> complex ndarray option" where
  "ifft bottom sequential = (if sequential then None else Some (tf_ifft bottom))"

text \<open>
  \<^verbatim>\<open>tf.multiply\<close> on two rank-2 tensors, with broadcasting: a dimension of one operand
  must equal the other's or be 1. \<^verbatim>\<open>None\<close> is no tensor: \<^verbatim>\<open>ValueError\<close>.
\<close>

definition tf_multiply ::
    "complex ndarray option \<Rightarrow> complex ndarray option \<Rightarrow> error + complex ndarray" where
  "tf_multiply x y =
     (case (x, y) of
        (Some a, Some b) \<Rightarrow>
          (case (shape a, shape b) of
             ([r1, c1], [r2, c2]) \<Rightarrow>
               if (r1 = r2 \<or> r1 = 1 \<or> r2 = 1) \<and> (c1 = c2 \<or> c1 = 1 \<or> c2 = 1) then
                 Inr \<lparr>shape = [if r1 = 1 then r2 else r1, if c1 = 1 then c2 else c1],
                      buf = tabulate2 (if r1 = 1 then r2 else r1) (if c1 = 1 then c2 else c1)
                        (\<lambda>i j. elem (buf a) c1 (if r1 = 1 then 0 else i) (if c1 = 1 then 0 else j)
                              * elem (buf b) c2 (if r2 = 1 then 0 else i) (if c2 = 1 then 0 else j))\<rparr>
               else Inl InvalidArgument
           | _ \<Rightarrow> Inl InvalidArgument)
      | _ \<Rightarrow> Inl ValueError)"

definition tf_real :: "complex ndarray option \<Rightarrow> error + real ndarray" where
  "tf_real x =
     (case x of None \<Rightarrow> Inl ValueError
      | Some t \<Rightarrow> Inr \<lparr>shape = shape t, buf = map Re (buf t)\<rparr>)"

section \<open>Compact bilinear pooling\<close>

text \<open>The keyword arguments of \<^verbatim>\<open>compact_bilinear_pooling_layer\<close> and their defaults.\<close>

record cbp_options =
  rand_h_1 :: "real ndarray option"
  rand_s_1 :: "real ndarray option"
  rand_h_2 :: "real ndarray option"
  rand_s_2 :: "real ndarray option"
  seed_h_1 :: nat
  seed_s_1 :: nat
  seed_h_2 :: nat
  seed_s_2 :: nat
  sequential :: bool
  compute_size :: nat


text \<open>
  Lines 88 to 94 (and again 97 to 103): an array that is \<^verbatim>\<open>None\<close> is drawn from the
  global generator, reseeded just before; then the sketch matrix is built.
\<close>

definition draw_h ::
    "'g numpy_random \<Rightarrow> nat \<Rightarrow> nat \<Rightarrow> nat \<Rightarrow> 'g world \<Rightarrow> (error + real ndarray) \<times> 'g world" where
  "draw_h G seed output_dim input_dim =
     bindE (random_seed G seed) (\<lambda>_.
     bindE (random_randint G output_dim input_dim) (\<lambda>xs w.
       (Inr \<lparr>shape = [input_dim], buf = map real xs\<rparr>, w)))"

definition draw_s ::
    "'g numpy_random \<Rightarrow> nat \<Rightarrow> nat \<Rightarrow> 'g world \<Rightarrow> (error + real ndarray) \<times> 'g world" where
  "draw_s G seed input_dim =
     bindE (random_seed G seed) (\<lambda>_.
     bindE (random_randint G 2 input_dim) (\<lambda>xs w.
       (Inr \<lparr>shape = [input_dim], buf = map (\<lambda>x. 2 * real x - 1) xs\<rparr>, w)))"

definition derive_sketch ::
    "'g numpy_random \<Rightarrow> real ndarray option \<Rightarrow> real ndarray option \<Rightarrow> nat \<Rightarrow> nat \<Rightarrow>
     nat \<Rightarrow> nat \<Rightarrow> 'g world \<Rightarrow> (error + sparse_tensor) \<times> 'g world" where
  "derive_sketch G rand_h rand_s seed_h seed_s output_dim input_dim =
     bindE (case rand_h of None \<Rightarrow> draw_h G seed_h output_dim input_dim
            | Some h \<Rightarrow> (\<lambda>w. (Inr h, w))) (\<lambda>h.
     bindE (case rand_s of None \<Rightarrow> draw_s G seed_s input_dim
            | Some s \<Rightarrow> (\<lambda>w. (Inr s, w))) (\<lambda>s w.
       (generate_sketch_matrix h s output_dim, w)))"

text \<open>Lines 111 to 115: the count sketch of one flattened stream.\<close>

definition project :: "sparse_tensor \<Rightarrow> real ndarray \<Rightarrow> error + real ndarray" where
  "project sparse_sketch_matrix bottom_flat =
     bindS (sparse_dense_matmul sparse_sketch_matrix bottom_flat) (\<lambda>p. Inr (tf_transpose p))"

text \<open>
  Lines 111 to 129: both sketches, their transforms, the product, the inverse transform
  and the final reshape, which reads dimensions 1, 2 and 3 of \<^verbatim>\<open>bottom1\<close>.
\<close>

definition fuse ::
    "sparse_tensor \<Rightarrow> sparse_tensor \<Rightarrow> real ndarray \<Rightarrow> real ndarray \<Rightarrow> nat list \<Rightarrow> bool \<Rightarrow>
     error + real ndarray" where
  "fuse sparse_sketch_matrix1 sparse_sketch_matrix2 bottom1_flat bottom2_flat shape1 seq =
     bindS (project sparse_sketch_matrix1 bottom1_flat) (\<lambda>sketch1.
     bindS (project sparse_sketch_matrix2 bottom2_flat) (\<lambda>sketch2.
     let fft1 = fft (tf_complex sketch1 (tf_zeros_like sketch1)) seq;
         fft2 = fft (tf_complex sketch2 (tf_zeros_like sketch2)) seq
     in bindS (tf_multiply fft1 fft2) (\<lambda>fft_product.
        bindS (tf_real (ifft fft_product seq)) (\<lambda>cbp_flat.
          if length shape1 < 4 then Inl IndexError
          else tf_reshape_infer cbp_flat [shape1 ! 1, shape1 ! 2, shape1 ! 3]))))"

definition compact_bilinear_pooling_layer ::
    "'g numpy_random \<Rightarrow> real ndarray \<Rightarrow> real ndarray \<Rightarrow> nat \<Rightarrow> cbp_options \<Rightarrow>
     'g world \<Rightarrow> (error + real ndarray) \<times> 'g world" where
  "compact_bilinear_pooling_layer G bottom1 bottom2 output_dim opts w =
     (if shape bottom1 = [] \<or> shape bottom2 = [] then (Inl IndexError, w)
      else
        let input_dim1 = last (shape bottom1);
            input_dim2 = last (shape bottom2)
        in bindE (derive_sketch G (rand_h_1 opts) (rand_s_1 opts) (seed_h_1 opts)
                    (seed_s_1 opts) output_dim input_dim1) (\<lambda>sparse_sketch_matrix1.
           bindE (derive_sketch G (rand_h_2 opts) (rand_s_2 opts) (seed_h_2 opts)
                    (seed_s_2 opts) output_dim input_dim2) (\<lambda>sparse_sketch_matrix2 w2.
             case tf_reshape_infer bottom1 [input_dim1] of
               Inl e \<Rightarrow> (Inl e, w2)
             | Inr bottom1_flat \<Rightarrow>
                 (case tf_reshape_infer bottom2 [input_dim2] of
                    Inl e \<Rightarrow> (Inl e, w2)
                  | Inr bottom2_flat \<Rightarrow>
                      (fuse sparse_sketch_matrix1 sparse_sketch_matrix2 bottom1_flat
                         bottom2_flat (shape bottom1) (sequential opts),
                       w2\<lparr>stdout := stdout w2 @ [bottom1_flat]\<rparr>)))) w)"

section \<open>Callers and instances\<close>

text \<open>
  The linear combination \<^verbatim>\<open>a * x + b * y\<close> of two tensors of the same shape, as a caller
  forms it, entry by entry.
\<close>

definition tlin :: "'a::semiring_0 \<Rightarrow> 'a ndarray \<Rightarrow> 'a \<Rightarrow> 'a ndarray \<Rightarrow> 'a ndarray" where
  "tlin a x b y = \<lparr>shape = shape x, buf = map2 (\<lambda>u v. a * u + b * v) (buf x) (buf y)\<rparr>"

text \<open>
  An instance of the generator's interface to run the program on: a linear congruential
  generator whose state is one number, standing in for numpy's Mersenne Twister.
\<close>

definition lcg_next :: "nat \<Rightarrow> nat" where
  "lcg_next g = (1103515245 * g + 12345) mod 2 ^ 31"

primrec lcg_draws :: "nat \<Rightarrow> nat \<Rightarrow> nat \<Rightarrow> nat list \<times> nat" where
  "lcg_draws high 0 g = ([], g)"
| "lcg_draws high (Suc n) g =
     (lcg_next g mod high # fst (lcg_draws high n (lcg_next g)),
      snd (lcg_draws high n (lcg_next g)))"

definition lcg :: "nat numpy_random" where
  "lcg = \<lparr>np_seed = (\<lambda>s. s), np_randint = lcg_draws\<rparr>"



section \<open>Row-major tables\<close>

lemma tabulate2_Suc: "tabulate2 (Suc R) C f = tabulate2 R C f @ map (f R) [0..<C]"
  by (simp add: tabulate2_def)

lemma length_tabulate2 [simp]: "length (tabulate2 R C f) = R * C"
  by (induction R) (simp_all add: tabulate2_Suc, simp add: tabulate2_def)

lemma div_mod_block:
  fixes k :: nat
  assumes "R * C \<le> k" "k < R * C + C"
  shows "k div C = R" "k mod C = k - R * C"
proof -
  have C: "0 < C" using assms by (cases C) auto
  obtain c where k: "k = c + R * C" and c: "c < C"
    using assms by (metis add.commute le_Suc_ex nat_add_left_cancel_less)
  show "k div C = R" using c C by (simp add: k)
  show "k mod C = k - R * C" using c by (simp add: k)
qed

lemma nth_tabulate2: "k < R * C \<Longrightarrow> tabulate2 R C f ! k = f (k div C) (k mod C)"
proof (induction R)
  case 0
  then show ?case by simp
next
  case (Suc R)
  show ?case
  proof (cases "k < R * C")
    case True
    then show ?thesis using Suc.IH by (simp add: tabulate2_Suc nth_append)
  next
    case False
    then have ge: "R * C \<le> k" by simp
    have lt: "k < R * C + C" using Suc.prems by (simp add: add.commute)
    show ?thesis using False lt div_mod_block[OF ge lt]
      by (simp add: tabulate2_Suc nth_append)
  qed
qed

lemma cell_in_range:
  fixes r :: nat
  assumes "r < R" "c < C"
  shows "r * C + c < R * C"
proof -
  have "r * C + c < r * C + C" using assms(2) by simp
  also have "\<dots> = Suc r * C" by simp
  also have "\<dots> \<le> R * C" using assms(1) by (intro mult_le_mono1) simp
  finally show ?thesis .
qed

lemma elem_tabulate2: "r < R \<Longrightarrow> c < C \<Longrightarrow> elem (tabulate2 R C f) C r c = f r c"
  using cell_in_range[of r R c C] by (simp add: elem_def nth_tabulate2)

lemma tabulate2_cong:
  assumes "\<And>r c. r < R \<Longrightarrow> c < C \<Longrightarrow> f r c = g r c"
  shows "tabulate2 R C f = tabulate2 R C g"
  unfolding tabulate2_def
  by (rule arg_cong[where f = concat], rule map_cong[OF refl], rule map_cong[OF refl])
     (simp add: assms)

lemma map_tabulate2: "map h (tabulate2 R C f) = tabulate2 R C (\<lambda>r c. h (f r c))"
  by (simp add: tabulate2_def map_concat comp_def)

lemma map2_tabulate2:
  "map2 h (tabulate2 R C f) (tabulate2 R C g) = tabulate2 R C (\<lambda>r c. h (f r c) (g r c))"
  by (rule nth_equalityI) (simp_all add: nth_tabulate2)

section \<open>Properties of the sketch matrix\<close>

lemma strict_rows: "sorted_wrt (<) (zip (map int [0..<n]) hs)"
  by (simp add: sorted_wrt_iff_nth_less less_prod_def)

lemma sorted_rows: "sorted (zip (map int [0..<n]) hs)"
  using strict_rows[of n hs]
  by (simp add: sorted_wrt_iff_nth_less sorted_iff_nth_mono_less less_imp_le)

lemma reorder_rows:
  assumes "length vs = n" "length hs = n"
  shows "sparse_reorder \<lparr>indices = zip (map int [0..<n]) hs, vals = vs, dense_shape = ds\<rparr>
       = \<lparr>indices = zip (map int [0..<n]) hs, vals = vs, dense_shape = ds\<rparr>"
proof -
  let ?idx = "zip (map int [0..<n]) hs"
  have "map fst (zip ?idx vs) = ?idx" using assms by (simp add: map_fst_zip)
  then have "sorted (map fst (zip ?idx vs))" using sorted_rows[of n hs] by simp
  then have "sort_key fst (zip ?idx vs) = zip ?idx vs" by (rule sort_key_id_if_sorted)
  then show ?thesis using assms by (simp add: sparse_reorder_def map_fst_zip map_snd_zip)
qed

lemma generate_valid:
  assumes "shape h = [n]" "shape s = [n]" "wf h" "wf s"
    and "list_all (\<lambda>x. 0 \<le> trunc x \<and> trunc x < int D) (buf h)"
  shows "generate_sketch_matrix h s D =
           Inr \<lparr>indices = zip (map int [0..<n]) (map trunc (buf h)), vals = buf s,
                dense_shape = [n, D]\<rparr>"
proof -
  have lh: "length (buf h) = n" and ls: "length (buf s) = n"
    using assms by (simp_all add: wf_def)
  have chk: "list_all (\<lambda>x. 0 \<le> x) (map trunc (buf h))"
    "list_all (\<lambda>x. x < int D) (map trunc (buf h))"
    using assms(5) by (simp_all add: list_all_iff)
  show ?thesis
    using assms(1,2) chk reorder_rows[of "buf s" n "map trunc (buf h)" "[n, D]"] lh ls
    by (simp add: generate_sketch_matrix_def astype_int64_def astype_float32_def)
qed

text \<open>
  C10. Some input with non-integer bucket indices is not rejected: the array
  \<open>[1.9, -0.5]\<close> is truncated toward zero to \<open>[1, 0]\<close> before the range assertions run
  (\<open>-0.5\<close> itself is negative, its truncation \<open>0\<close> passes), the truncated values are the
  columns of the stored entries, and the signs \<open>[0.5, 3]\<close>, neither of them \<open>+1\<close> or
  \<open>-1\<close>, are stored as they are.
\<close>

theorem generate_sketch_matrix_truncates:
  "generate_sketch_matrix \<lparr>shape = [2], buf = [19 / 10, - 1 / 2]\<rparr>
       \<lparr>shape = [2], buf = [1 / 2, 3]\<rparr> 2
     = Inr \<lparr>indices = [(0, 1), (1, 0)], vals = [1 / 2, 3], dense_shape = [2, 2]\<rparr>"
  by (simp add: generate_sketch_matrix_def astype_int64_def astype_float32_def trunc_def
        sparse_reorder_def upt_conv_Cons ceiling_def)

text \<open>
  C7, as the claim states it, fails: the one-dimensional arrays \<open>h = [0]\<close> and
  \<open>s = [2]\<close> with \<open>output_dim = 1\<close> are accepted, and the sign \<open>2\<close> becomes the stored
  value of the matrix.
\<close>

theorem generate_sketch_matrix_accepts_sign_2:
  "generate_sketch_matrix \<lparr>shape = [1], buf = [0]\<rparr> \<lparr>shape = [1], buf = [2]\<rparr> 1
     = Inr \<lparr>indices = [(0, 0)], vals = [2], dense_shape = [1, 1]\<rparr>"
  by (simp add: generate_sketch_matrix_def astype_int64_def astype_float32_def trunc_def
        sparse_reorder_def)

text \<open>
  C7, amended. The sketch-matrix generation fails, with an assertion error, exactly when
  the two arrays are not both one-dimensional of the same length or some truncated
  bucket index lies outside \<open>[0, output_dim)\<close>; the values of the signs play no part in
  the decision.
\<close>

theorem generate_sketch_matrix_rejects_iff:
  "(generate_sketch_matrix h s D = Inl AssertionError) =
     (\<not> (\<exists>n. shape h = [n] \<and> shape s = [n]) \<or>
      \<not> list_all (\<lambda>x. 0 \<le> trunc x \<and> trunc x < int D) (buf h))
   \<and> (isl (generate_sketch_matrix h s D)) =
     (\<not> (\<exists>n. shape h = [n] \<and> shape s = [n]) \<or>
      \<not> list_all (\<lambda>x. 0 \<le> trunc x \<and> trunc x < int D) (buf h))"
  by (auto simp: generate_sketch_matrix_def astype_int64_def astype_float32_def list_all_iff
        Let_def split: list.splits)

theorem generate_sketch_matrix_rejects_iff_witness:
  "generate_sketch_matrix \<lparr>shape = [1], buf = [5]\<rparr> \<lparr>shape = [1], buf = [1]\<rparr> 2
     = Inl AssertionError
   \<and> generate_sketch_matrix \<lparr>shape = [1, 1], buf = [0]\<rparr> \<lparr>shape = [1], buf = [1]\<rparr> 2
     = Inl AssertionError
   \<and> generate_sketch_matrix \<lparr>shape = [2], buf = [0, 1]\<rparr> \<lparr>shape = [1], buf = [1]\<rparr> 2
     = Inl AssertionError"
  using generate_sketch_matrix_rejects_iff
          [of "\<lparr>shape = [1], buf = [5]\<rparr>" "\<lparr>shape = [1], buf = [1]\<rparr>" 2]
        generate_sketch_matrix_rejects_iff
          [of "\<lparr>shape = [1, 1], buf = [0]\<rparr>" "\<lparr>shape = [1], buf = [1]\<rparr>" 2]
        generate_sketch_matrix_rejects_iff
          [of "\<lparr>shape = [2], buf = [0, 1]\<rparr>" "\<lparr>shape = [1], buf = [1]\<rparr>" 2]
  by (simp add: trunc_def)

lemma zip_rows:
  assumes "length hs = n" "length vs = n"
  shows "zip (zip (map int [0..<n]) hs) vs = map (\<lambda>k. ((int k, hs ! k), vs ! k)) [0..<n]"
  using assms by (intro nth_equalityI) simp_all

lemma filter_upt_eq: "i < n \<Longrightarrow> filter (\<lambda>k. k = i) [0..<n] = [i]"
  by (induction n) (auto simp: less_Suc_eq)

lemma trunc_of_int: "trunc (of_int k) = k"
  by (simp add: trunc_def)

lemma list2_eq: "length xs = 2 \<Longrightarrow> xs ! 0 = a \<Longrightarrow> xs ! 1 = b \<Longrightarrow> xs = [a, b]"
  by (cases xs; cases "tl xs") auto

text \<open>
  C8. From integer bucket indices \<open>hs\<close> in \<open>[0, output_dim)\<close> and signs \<open>ss\<close>, each
  \<open>+1\<close> or \<open>-1\<close>, both of length \<open>n\<close>, the generation returns a sparse matrix of
  dense shape \<open>[n, output_dim]\<close> with \<open>n\<close> stored entries; the \<open>i\<close>-th is the only entry
  of row \<open>i\<close>, it lies at column \<open>hs[i]\<close> and holds \<open>ss[i]\<close>, a nonzero value; the
  entries are in strictly increasing row-major order.
\<close>

theorem generate_sketch_matrix_one_entry_per_row:
  assumes "length hs = n" "length ss = n"
    and "list_all (\<lambda>k. 0 \<le> k \<and> k < int D) hs"
    and "list_all (\<lambda>v. v = 1 \<or> v = - 1) ss"
  shows "\<exists>M. generate_sketch_matrix \<lparr>shape = [n], buf = map of_int hs\<rparr>
                \<lparr>shape = [n], buf = ss\<rparr> D = Inr M
           \<and> dense_shape M = [n, D]
           \<and> length (indices M) = n \<and> length (vals M) = n
           \<and> (\<forall>i<n. indices M ! i = (int i, hs ! i) \<and> vals M ! i = ss ! i
                 \<and> (vals M ! i = 1 \<or> vals M ! i = - 1)
                 \<and> filter (\<lambda>e. fst (fst e) = int i) (zip (indices M) (vals M))
                     = [((int i, hs ! i), ss ! i)])
           \<and> sorted_wrt (<) (indices M)"
proof -
  let ?h = "\<lparr>shape = [n], buf = map of_int hs\<rparr> :: real ndarray"
  let ?s = "\<lparr>shape = [n], buf = ss\<rparr>"
  have "list_all (\<lambda>x. 0 \<le> trunc x \<and> trunc x < int D) (buf ?h)"
    using assms(3) by (simp add: list_all_iff trunc_of_int)
  then have gen0: "generate_sketch_matrix ?h ?s D =
      Inr \<lparr>indices = zip (map int [0..<n]) (map trunc (buf ?h)), vals = buf ?s,
           dense_shape = [n, D]\<rparr>"
    using assms(1,2) by (intro generate_valid) (simp_all add: wf_def)
  let ?M = "\<lparr>indices = zip (map int [0..<n]) hs, vals = ss, dense_shape = [n, D]\<rparr>"
  have gen: "generate_sketch_matrix ?h ?s D = Inr ?M"
    using gen0 by (simp add: comp_def trunc_of_int)
  have entry: "indices ?M ! i = (int i, hs ! i) \<and> vals ?M ! i = ss ! i
        \<and> (vals ?M ! i = 1 \<or> vals ?M ! i = - 1)
        \<and> filter (\<lambda>e. fst (fst e) = int i) (zip (indices ?M) (vals ?M))
             = [((int i, hs ! i), ss ! i)]" if i: "i < n" for i
  proof -
    have sgn: "ss ! i = 1 \<or> ss ! i = - 1"
      using assms(2,4) i by (simp add: list_all_length)
    have "filter (\<lambda>e. fst (fst e) = int i) (zip (indices ?M) (vals ?M))
        = map (\<lambda>k. ((int k, hs ! k), ss ! k)) (filter (\<lambda>k. k = i) [0..<n])"
      using assms(1,2) by (simp add: zip_rows filter_map comp_def)
    then have "filter (\<lambda>e. fst (fst e) = int i) (zip (indices ?M) (vals ?M))
        = [((int i, hs ! i), ss ! i)]"
      using i by (simp add: filter_upt_eq)
    then show ?thesis using i assms(1,2) sgn by simp
  qed
  have "sorted_wrt (<) (indices ?M)" by (simp add: strict_rows)
  then show ?thesis using gen entry assms(1,2) by (intro exI[of _ ?M]) simp
qed

theorem generate_sketch_matrix_one_entry_per_row_witness:
  "\<exists>M. generate_sketch_matrix \<lparr>shape = [2], buf = [1, 0]\<rparr> \<lparr>shape = [2], buf = [1, - 1]\<rparr> 2
          = Inr M
       \<and> dense_shape M = [2, 2] \<and> indices M = [(0, 1), (1, 0)] \<and> vals M = [1, - 1]"
proof -
  obtain M where M: "generate_sketch_matrix \<lparr>shape = [2], buf = map of_int [1, 0]\<rparr>
          \<lparr>shape = [2], buf = [1, - 1]\<rparr> 2 = Inr M"
      "dense_shape M = [2, 2]" "length (indices M) = 2" "length (vals M) = 2"
      "\<forall>i<2. indices M ! i = (int i, [1, 0] ! i) \<and> vals M ! i = [1, - 1] ! i"
    using generate_sketch_matrix_one_entry_per_row[of "[1, 0]" 2 "[1, - 1]" 2]
    by auto
  have "indices M = [(0, 1), (1, 0)]"
    using M(3,5) by (intro list2_eq) auto
  moreover have "vals M = [1, - 1]"
    using M(4,5) by (intro list2_eq) auto
  ultimately show ?thesis using M(1,2) by simp
qed

section \<open>The projection\<close>

lemma sum_list_rows:
  assumes "length hs = C" "length vs = C"
  shows "sum_list (map (\<lambda>((i, j), v). if j = b then v * g (nat i) else (0::real))
            (zip (zip (map int [0..<C]) hs) vs))
       = (\<Sum>i | i < C \<and> hs ! i = b. vs ! i * g i)"
proof -
  have "sum_list (map (\<lambda>((i, j), v). if j = b then v * g (nat i) else (0::real))
            (zip (zip (map int [0..<C]) hs) vs))
      = sum_list (map (\<lambda>k. if hs ! k = b then vs ! k * g k else 0) [0..<C])"
    using assms by (simp add: zip_rows comp_def cong: if_cong)
  also have "\<dots> = (\<Sum>k\<in>{..<C}. if hs ! k = b then vs ! k * g k else 0)"
    by (simp add: interv_sum_list_conv_sum_set_nat atLeast0LessThan)
  also have "\<dots> = (\<Sum>k\<in>{k \<in> {..<C}. hs ! k = b}. vs ! k * g k)"
    by (rule sum.inter_filter[symmetric]) simp
  also have "{k \<in> {..<C}. hs ! k = b} = {i. i < C \<and> hs ! i = b}" by auto
  finally show ?thesis .
qed

lemma matmul_sketch:
  assumes "shape x = [N, C]" "length hs = C" "length vs = C"
    and "list_all (\<lambda>j. 0 \<le> j \<and> j < int D) hs"
  shows "sparse_dense_matmul \<lparr>indices = zip (map int [0..<C]) hs, vals = vs,
                               dense_shape = [C, D]\<rparr> x
       = Inr \<lparr>shape = [D, N],
              buf = tabulate2 D N (\<lambda>d n. \<Sum>i | i < C \<and> hs ! i = int d. vs ! i * elem (buf x) C n i)\<rparr>"
proof -
  have ok: "list_all (\<lambda>(i, j). 0 \<le> i \<and> i < int C \<and> 0 \<le> j \<and> j < int D)
              (zip (map int [0..<C]) hs)"
    using assms(2,4) by (auto simp: list_all_length)
  show ?thesis
    using assms(1) ok
    by (simp add: sparse_dense_matmul_def sum_list_rows[OF assms(2,3)])
qed

lemma project_sketch:
  assumes "shape x = [N, C]" "length hs = C" "length vs = C"
    and "list_all (\<lambda>j. 0 \<le> j \<and> j < int D) hs"
  shows "project \<lparr>indices = zip (map int [0..<C]) hs, vals = vs, dense_shape = [C, D]\<rparr> x
       = Inr \<lparr>shape = [N, D],
              buf = tabulate2 N D (\<lambda>n d. \<Sum>i | i < C \<and> hs ! i = int d. vs ! i * elem (buf x) C n i)\<rparr>"
  by (simp add: project_def bindS_def matmul_sketch[OF assms] tf_transpose_def elem_tabulate2
        cong: tabulate2_cong)

text \<open>
  C3. For a flattened input \<open>x\<close> of shape \<open>[N, input_dim]\<close> and a valid sketch (integer
  bucket indices \<open>hs\<close> in \<open>[0, output_dim)\<close>, signs \<open>ss\<close> in \<open>{+1, -1}\<close>), the sketch
  matrix is built and the projection returns a dense \<open>[N, output_dim]\<close> matrix whose
  entry \<open>(n, b)\<close> is the sum of \<open>ss[i] * x[n, i]\<close> over the channels \<open>i\<close> with
  \<open>hs[i] = b\<close>.
\<close>

theorem projection_is_scatter_add:
  assumes "shape x = [N, C]" "wf x"
    and "length hs = C" "length ss = C"
    and "list_all (\<lambda>k. 0 \<le> k \<and> k < int D) hs"
    and "list_all (\<lambda>v. v = 1 \<or> v = - 1) ss"
  shows "\<exists>M t. generate_sketch_matrix \<lparr>shape = [C], buf = map of_int hs\<rparr>
                  \<lparr>shape = [C], buf = ss\<rparr> D = Inr M
           \<and> project M x = Inr t
           \<and> shape t = [N, D] \<and> wf t
           \<and> (\<forall>n<N. \<forall>b<D. elem (buf t) D n b
                 = (\<Sum>i | i < C \<and> hs ! i = int b. ss ! i * elem (buf x) C n i))"
proof -
  let ?h = "\<lparr>shape = [C], buf = map of_int hs\<rparr> :: real ndarray"
  let ?s = "\<lparr>shape = [C], buf = ss\<rparr>"
  let ?M = "\<lparr>indices = zip (map int [0..<C]) hs, vals = ss, dense_shape = [C, D]\<rparr>"
  let ?t = "\<lparr>shape = [N, D],
             buf = tabulate2 N D (\<lambda>n d. \<Sum>i | i < C \<and> hs ! i = int d. ss ! i * elem (buf x) C n i)\<rparr>"
  have "list_all (\<lambda>x. 0 \<le> trunc x \<and> trunc x < int D) (buf ?h)"
    using assms(5) by (simp add: list_all_iff trunc_of_int)
  then have "generate_sketch_matrix ?h ?s D =
      Inr \<lparr>indices = zip (map int [0..<C]) (map trunc (buf ?h)), vals = buf ?s,
           dense_shape = [C, D]\<rparr>"
    using assms(3,4) by (intro generate_valid) (simp_all add: wf_def)
  then have gen: "generate_sketch_matrix ?h ?s D = Inr ?M"
    by (simp add: comp_def trunc_of_int)
  have prj: "project ?M x = Inr ?t"
    using assms(1,3,4,5) by (rule project_sketch)
  have cell: "elem (buf ?t) D n b
      = (\<Sum>i | i < C \<and> hs ! i = int b. ss ! i * elem (buf x) C n i)"
    if "n < N" "b < D" for n b
    using that by (simp add: elem_tabulate2)
  show ?thesis
    using gen prj cell by (intro exI[of _ ?M] exI[of _ ?t]) (simp add: wf_def)
qed

theorem projection_is_scatter_add_witness:
  "\<exists>M t. generate_sketch_matrix \<lparr>shape = [2], buf = [1, 0]\<rparr>
            \<lparr>shape = [2], buf = [1, - 1]\<rparr> 2 = Inr M
         \<and> project M \<lparr>shape = [1, 2], buf = [3, 4]\<rparr> = Inr t
         \<and> shape t = [1, 2] \<and> buf t = [- 4, 3]"
proof -
  let ?x = "\<lparr>shape = [1, 2], buf = [3, 4]\<rparr> :: real ndarray"
  obtain M t where g: "generate_sketch_matrix \<lparr>shape = [2], buf = map of_int [1, 0]\<rparr>
            \<lparr>shape = [2], buf = [1, - 1]\<rparr> 2 = Inr M"
    and p: "project M ?x = Inr t" and sh: "shape t = [1, 2]" and w: "wf t"
    and c: "\<forall>n<1. \<forall>b<2. elem (buf t) 2 n b
                 = (\<Sum>i | i < 2 \<and> [1, 0] ! i = int b. [1, - 1] ! i * elem (buf ?x) 2 n i)"
    using projection_is_scatter_add[of ?x 1 2 "[1, 0]" "[1, - 1]" 2]
    by (auto simp: wf_def)
  have s0: "{i. i < 2 \<and> [1, 0 :: int] ! i = int 0} = {1 :: nat}"
    by (auto simp: less_2_cases_iff)
  have s1: "{i. i < 2 \<and> [1, 0 :: int] ! i = int 1} = {0 :: nat}"
    by (auto simp: less_2_cases_iff nth_Cons')
  have "elem (buf t) 2 0 0 = - 4"
    using c s0 by (simp add: elem_def)
  moreover have "elem (buf t) 2 0 1 = 3"
    using c s1 by (simp add: elem_def)
  moreover have "length (buf t) = 2" using w sh by (simp add: wf_def)
  ultimately have "buf t = [- 4, 3]"
    by (intro list2_eq) (simp_all add: elem_def)
  then show ?thesis using g p sh by auto
qed

section \<open>The whole call\<close>

lemma fst_bindE:
  "fst (bindE m f w) = (case fst (m w) of Inl e \<Rightarrow> Inl e | Inr a \<Rightarrow> fst (f a (snd (m w))))"
  by (simp add: bindE_def split: prod.splits sum.splits)

lemma snd_bindE:
  "snd (bindE m f w) = (case fst (m w) of Inl e \<Rightarrow> snd (m w) | Inr a \<Rightarrow> snd (f a (snd (m w))))"
  by (simp add: bindE_def split: prod.splits sum.splits)

lemma fst_draw_h:
  "fst (draw_h G seed D C w) =
     (if seed < 2 ^ 32 \<and> (C = 0 \<or> D \<noteq> 0)
      then Inr \<lparr>shape = [C],
                buf = (if C = 0 then []
                       else map real (fst (np_randint G D C (np_seed G seed))))\<rparr>
      else Inl ValueError)"
  by (simp add: draw_h_def fst_bindE random_seed_def random_randint_def)

lemma fst_draw_s:
  "fst (draw_s G seed C w) =
     (if seed < 2 ^ 32
      then Inr \<lparr>shape = [C],
                buf = (if C = 0 then []
                       else map (\<lambda>x. 2 * real x - 1)
                              (fst (np_randint G 2 C (np_seed G seed))))\<rparr>
      else Inl ValueError)"
  by (simp add: draw_s_def fst_bindE random_seed_def random_randint_def)

lemma fst_derive_sketch:
  "fst (derive_sketch G rand_h rand_s seed_h seed_s D C w) =
     bindS (case rand_h of None \<Rightarrow> fst (draw_h G seed_h D C w0) | Some h \<Rightarrow> Inr h) (\<lambda>h.
     bindS (case rand_s of None \<Rightarrow> fst (draw_s G seed_s C w0) | Some s \<Rightarrow> Inr s) (\<lambda>s.
       generate_sketch_matrix h s D))"
  by (cases rand_h; cases rand_s)
     (simp_all add: derive_sketch_def fst_bindE fst_draw_h fst_draw_s bindS_def split: sum.splits)

lemma fst_compact_bilinear_pooling_layer:
  "fst (compact_bilinear_pooling_layer G bottom1 bottom2 D opts w) =
     (if shape bottom1 = [] \<or> shape bottom2 = [] then Inl IndexError
      else
        bindS (fst (derive_sketch G (rand_h_1 opts) (rand_s_1 opts) (seed_h_1 opts)
                 (seed_s_1 opts) D (last (shape bottom1)) w0)) (\<lambda>sm1.
        bindS (fst (derive_sketch G (rand_h_2 opts) (rand_s_2 opts) (seed_h_2 opts)
                 (seed_s_2 opts) D (last (shape bottom2)) w0)) (\<lambda>sm2.
        bindS (tf_reshape_infer bottom1 [last (shape bottom1)]) (\<lambda>bottom1_flat.
        bindS (tf_reshape_infer bottom2 [last (shape bottom2)]) (\<lambda>bottom2_flat.
          fuse sm1 sm2 bottom1_flat bottom2_flat (shape bottom1) (sequential opts))))))"
proof -
  have d: "fst (derive_sketch G rh rs sh ss D C u) = fst (derive_sketch G rh rs sh ss D C w0)"
    for rh rs sh ss C and u :: "'a world"
    by (simp add: fst_derive_sketch[where ?w0.0 = w0])
  show ?thesis
    by (simp add: compact_bilinear_pooling_layer_def fst_bindE
          d[of _ _ _ _ _ w] d[of _ _ _ _ _ "snd (derive_sketch _ _ _ _ _ _ _ w)"]
          bindS_def Let_def split: sum.splits)
qed

text \<open>
  C4. The result of a call (the tensor or the exception) is the same from any two
  worlds: it does not depend on the state of the global generator before the call, since
  every array that is drawn is drawn right after a reseeding.
\<close>

theorem compact_bilinear_pooling_layer_deterministic:
  "fst (compact_bilinear_pooling_layer G bottom1 bottom2 D opts w)
     = fst (compact_bilinear_pooling_layer G bottom1 bottom2 D opts w')"
  by (simp add: fst_compact_bilinear_pooling_layer[where ?w0.0 = w'])

lemma fuse_sequential: "isl (fuse sm1 sm2 f1 f2 shp True)"
  by (simp add: fuse_def bindS_def fft_def tf_multiply_def split: sum.splits)

text \<open>
  C2. The claim asks that \<^verbatim>\<open>sequential=True\<close> and \<^verbatim>\<open>sequential=False\<close> give equal
  outputs. In the code \<^verbatim>\<open>_fft\<close> returns \<^verbatim>\<open>None\<close> when \<^verbatim>\<open>sequential\<close> is true, so
  a call with \<^verbatim>\<open>sequential=True\<close> never returns a tensor; on the input of the
  witness it raises \<^verbatim>\<open>ValueError\<close> where \<^verbatim>\<open>sequential=False\<close> returns a tensor.
\<close>

theorem sequential_never_returns:
  "sequential opts \<Longrightarrow> isl (fst (compact_bilinear_pooling_layer G bottom1 bottom2 D opts w))"
  using fuse_sequential
  by (simp add: fst_compact_bilinear_pooling_layer[where ?w0.0 = w] bindS_def split: sum.splits)

theorem sequential_never_returns_witness:
  "fst (compact_bilinear_pooling_layer lcg
       \<lparr>shape = [1, 1, 1, 2], buf = [1, 2]\<rparr> \<lparr>shape = [1, 1, 1, 2], buf = [3, 4]\<rparr> 2
       \<lparr>rand_h_1 = Some \<lparr>shape = [2], buf = [0, 1]\<rparr>,
        rand_s_1 = Some \<lparr>shape = [2], buf = [1, - 1]\<rparr>,
        rand_h_2 = Some \<lparr>shape = [2], buf = [1, 0]\<rparr>,
        rand_s_2 = Some \<lparr>shape = [2], buf = [1, 1]\<rparr>,
        seed_h_1 = 1, seed_s_1 = 3, seed_h_2 = 5, seed_s_2 = 7,
        sequential = True, compute_size = 128\<rparr>
       \<lparr>rng = 0, stdout = []\<rparr>) = Inl ValueError
   \<and> map_sum id shape (fst (compact_bilinear_pooling_layer lcg
       \<lparr>shape = [1, 1, 1, 2], buf = [1, 2]\<rparr> \<lparr>shape = [1, 1, 1, 2], buf = [3, 4]\<rparr> 2
       \<lparr>rand_h_1 = Some \<lparr>shape = [2], buf = [0, 1]\<rparr>,
        rand_s_1 = Some \<lparr>shape = [2], buf = [1, - 1]\<rparr>,
        rand_h_2 = Some \<lparr>shape = [2], buf = [1, 0]\<rparr>,
        rand_s_2 = Some \<lparr>shape = [2], buf = [1, 1]\<rparr>,
        seed_h_1 = 1, seed_s_1 = 3, seed_h_2 = 5, seed_s_2 = 7,
        sequential = False, compute_size = 128\<rparr>
       \<lparr>rng = 0, stdout = []\<rparr>)) = Inr [1, 1, 1, 2]"
  using sequential_never_returns [of 
       "\<lparr>rand_h_1 = Some \<lparr>shape = [2], buf = [0, 1]\<rparr>,
        rand_s_1 = Some \<lparr>shape = [2], buf = [1, - 1]\<rparr>,
        rand_h_2 = Some \<lparr>shape = [2], buf = [1, 0]\<rparr>,
        rand_s_2 = Some \<lparr>shape = [2], buf = [1, 1]\<rparr>,
        seed_h_1 = 1, seed_s_1 = 3, seed_h_2 = 5, seed_s_2 = 7,
        sequential = True, compute_size = 128\<rparr>" lcg
       "\<lparr>shape = [1, 1, 1, 2], buf = [1, 2]\<rparr>" "\<lparr>shape = [1, 1, 1, 2], buf = [3, 4]\<rparr>" 2
       "\<lparr>rng = 0, stdout = []\<rparr>"]
  by (simp add: fst_compact_bilinear_pooling_layer[where ?w0.0 = "\<lparr>rng = 0, stdout = []\<rparr>"]
    fst_derive_sketch[where ?w0.0 = "\<lparr>rng = 0, stdout = []\<rparr>"]
    bindS_def generate_sketch_matrix_def astype_int64_def astype_float32_def trunc_def
    sparse_reorder_def upt_conv_Cons tf_reshape_infer_def fuse_def project_def
    sparse_dense_matmul_def tf_transpose_def tf_complex_def tf_zeros_like_def fft_def ifft_def
    tf_fft_def tf_ifft_def tf_multiply_def tf_real_def)

text \<open>
  C1. The claim asks for an output of shape \<open>[B, H, W, D]\<close>. The final reshape takes its
  last dimension from \<^verbatim>\<open>bottom1\<close>, not from \<^verbatim>\<open>output_dim\<close>: inputs of shape
  \<open>[1, 1, 1, 2]\<close> with \<open>output_dim = 4\<close> give a tensor of shape \<open>[2, 1, 1, 2]\<close>, not
  \<open>[1, 1, 1, 4]\<close>, and with \<open>output_dim = 3\<close> the reshape fails.
\<close>

theorem output_shape_uses_input_channels:
  "map_sum id shape (fst (compact_bilinear_pooling_layer lcg
       \<lparr>shape = [1, 1, 1, 2], buf = [1, 2]\<rparr> \<lparr>shape = [1, 1, 1, 2], buf = [3, 4]\<rparr> 4
       \<lparr>rand_h_1 = Some \<lparr>shape = [2], buf = [0, 1]\<rparr>,
        rand_s_1 = Some \<lparr>shape = [2], buf = [1, - 1]\<rparr>,
        rand_h_2 = Some \<lparr>shape = [2], buf = [1, 3]\<rparr>,
        rand_s_2 = Some \<lparr>shape = [2], buf = [1, 1]\<rparr>,
        seed_h_1 = 1, seed_s_1 = 3, seed_h_2 = 5, seed_s_2 = 7,
        sequential = False, compute_size = 128\<rparr>
       \<lparr>rng = 0, stdout = []\<rparr>)) = Inr [2, 1, 1, 2]
   \<and> fst (compact_bilinear_pooling_layer lcg
       \<lparr>shape = [1, 1, 1, 2], buf = [1, 2]\<rparr> \<lparr>shape = [1, 1, 1, 2], buf = [3, 4]\<rparr> 3
       \<lparr>rand_h_1 = Some \<lparr>shape = [2], buf = [0, 1]\<rparr>,
        rand_s_1 = Some \<lparr>shape = [2], buf = [1, - 1]\<rparr>,
        rand_h_2 = Some \<lparr>shape = [2], buf = [1, 2]\<rparr>,
        rand_s_2 = Some \<lparr>shape = [2], buf = [1, 1]\<rparr>,
        seed_h_1 = 1, seed_s_1 = 3, seed_h_2 = 5, seed_s_2 = 7,
        sequential = False, compute_size = 128\<rparr>
       \<lparr>rng = 0, stdout = []\<rparr>) = Inl InvalidArgument"
  by (simp add: fst_compact_bilinear_pooling_layer[where ?w0.0 = "\<lparr>rng = 0, stdout = []\<rparr>"]
    fst_derive_sketch[where ?w0.0 = "\<lparr>rng = 0, stdout = []\<rparr>"]
    bindS_def generate_sketch_matrix_def astype_int64_def astype_float32_def trunc_def
    sparse_reorder_def upt_conv_Cons tf_reshape_infer_def fuse_def project_def
    sparse_dense_matmul_def tf_transpose_def tf_complex_def tf_zeros_like_def fft_def ifft_def
    tf_fft_def tf_ifft_def tf_multiply_def tf_real_def)


lemma snd_derive_sketch_explicit [simp]:
  "snd (derive_sketch G (Some h) (Some s) seed_h seed_s D C w) = w"
  by (simp add: derive_sketch_def snd_bindE bindE_def)

lemma fst_derive_sketch_explicit [simp]:
  "fst (derive_sketch G (Some h) (Some s) seed_h seed_s D C w) = generate_sketch_matrix h s D"
  by (simp add: derive_sketch_def bindE_def)


lemmas cbp_eval =
    bindS_def generate_sketch_matrix_def astype_int64_def astype_float32_def trunc_def
    sparse_reorder_def upt_conv_Cons tf_reshape_infer_def fuse_def project_def
    sparse_dense_matmul_def tf_transpose_def tf_complex_def tf_zeros_like_def fft_def ifft_def
    tf_fft_def tf_ifft_def tf_multiply_def tf_real_def












section \<open>Linearity in the first stream\<close>

lemma shape_tlin [simp]: "shape (tlin a x b y) = shape x"
  by (simp add: tlin_def)

lemma length_tlin [simp]:
  "length (buf x) = length (buf y) \<Longrightarrow> length (buf (tlin a x b y)) = length (buf x)"
  by (simp add: tlin_def)

lemma elem_tlin:
  assumes "length (buf x) = length (buf y)" "r * C + c < length (buf x)"
  shows "elem (buf (tlin a x b y)) C r c = a * elem (buf x) C r c + b * elem (buf y) C r c"
  using assms by (simp add: tlin_def elem_def)

lemma tlin_tabulate2:
  "tlin a \<lparr>shape = sh, buf = tabulate2 R C f\<rparr> b \<lparr>shape = sh', buf = tabulate2 R C g\<rparr>
     = \<lparr>shape = sh, buf = tabulate2 R C (\<lambda>r c. a * f r c + b * g r c)\<rparr>"
  by (simp add: tlin_def map2_tabulate2)

lemma sum_list_lin:
  fixes a b :: "'a::semiring_0"
  assumes "\<And>e. e \<in> set es \<Longrightarrow> h e = a * f e + b * g e"
  shows "sum_list (map h es) = a * sum_list (map f es) + b * sum_list (map g es)"
  using assms by (induction es) (simp_all add: algebra_simps)

lemma matmul_linear:
  assumes "shape x = shape y" "wf x" "wf y"
    and "sparse_dense_matmul sm x = Inr px" "sparse_dense_matmul sm y = Inr py"
  shows "sparse_dense_matmul sm (tlin a x b y) = Inr (tlin a px b py)"
proof -
  obtain I D N C where ds: "dense_shape sm = [I, D]" and sx: "shape x = [N, C]"
    using assms(4)
    by (auto simp: sparse_dense_matmul_def split: list.splits if_splits)
  have IC: "I = C" and ok: "list_all (\<lambda>(i, j). 0 \<le> i \<and> i < int I \<and> 0 \<le> j \<and> j < int D) (indices sm)"
    using assms(4) ds sx by (auto simp: sparse_dense_matmul_def split: if_splits)
  have sy: "shape y = [N, C]" using assms(1) sx by simp
  have len: "length (buf x) = N * C" "length (buf y) = N * C"
    using assms(2,3) by (simp_all add: wf_def sx sy)
  let ?F = "\<lambda>t d n. sum_list (map (\<lambda>((i, j), v).
                 if j = int d then v * elem (buf t) C n (nat i) else 0)
               (zip (indices sm) (vals sm)))"
  have px: "px = \<lparr>shape = [D, N], buf = tabulate2 D N (?F x)\<rparr>"
    using assms(4) ds sx IC ok by (simp add: sparse_dense_matmul_def)
  have py: "py = \<lparr>shape = [D, N], buf = tabulate2 D N (?F y)\<rparr>"
    using assms(5) ds sy IC ok by (simp add: sparse_dense_matmul_def)
  have cell: "?F (tlin a x b y) d n = a * ?F x d n + b * ?F y d n" if "n < N" for d n
  proof (rule sum_list_lin, goal_cases)
    case (1 e)
    obtain i j v where eq: "e = ((i, j), v)" by (metis surj_pair)
    have "(i, j) \<in> set (indices sm)" using 1 eq by (auto dest: set_zip_leftD)
    then have i: "0 \<le> i" "i < int C" using ok IC by (auto simp: list_all_iff)
    then have "nat i < C" by simp
    then have "n * C + nat i < N * C" by (rule cell_in_range[OF that])
    then have "elem (buf (tlin a x b y)) C n (nat i)
        = a * elem (buf x) C n (nat i) + b * elem (buf y) C n (nat i)"
      using len by (simp add: elem_tlin)
    then show ?case by (simp add: eq algebra_simps)
  qed
  have "sparse_dense_matmul sm (tlin a x b y)
      = Inr \<lparr>shape = [D, N], buf = tabulate2 D N (?F (tlin a x b y))\<rparr>"
    using ds sx IC ok by (simp add: sparse_dense_matmul_def)
  also have "tabulate2 D N (?F (tlin a x b y)) = tabulate2 D N (\<lambda>d n. a * ?F x d n + b * ?F y d n)"
    by (rule tabulate2_cong) (rule cell)
  finally show ?thesis by (simp add: px py tlin_tabulate2)
qed

lemma matmul_result:
  assumes "sparse_dense_matmul sm x = Inr p"
  shows "\<exists>D N. shape p = [D, N] \<and> length (buf p) = D * N"
  using assms
  by (auto simp: sparse_dense_matmul_def split: list.splits if_splits)

lemma transpose_linear:
  assumes "shape p = [r, c]" "shape q = [r, c]" "length (buf p) = r * c" "length (buf q) = r * c"
  shows "tf_transpose (tlin a p b q) = tlin a (tf_transpose p) b (tf_transpose q)"
proof -
  have "tabulate2 c r (\<lambda>i j. elem (buf (tlin a p b q)) c j i)
      = tabulate2 c r (\<lambda>i j. a * elem (buf p) c j i + b * elem (buf q) c j i)"
  proof (rule tabulate2_cong)
    fix i j assume "i < c" "j < r"
    then have "j * c + i < r * c" by (intro cell_in_range)
    then show "elem (buf (tlin a p b q)) c j i = a * elem (buf p) c j i + b * elem (buf q) c j i"
      using assms by (simp add: elem_tlin)
  qed
  then show ?thesis using assms by (simp add: tf_transpose_def tlin_tabulate2)
qed

lemma transpose_result:
  assumes "shape p = [r, c]"
  shows "shape (tf_transpose p) = [c, r]" "length (buf (tf_transpose p)) = c * r"
  using assms by (simp_all add: tf_transpose_def)

lemma project_linear:
  assumes "shape x = shape y" "wf x" "wf y"
    and "project sm x = Inr sx" "project sm y = Inr sy"
  shows "project sm (tlin a x b y) = Inr (tlin a sx b sy)"
    and "shape sx = shape sy" and "\<exists>N D. shape sx = [N, D]" and "wf sx" and "wf sy"
proof -
  obtain px where px: "sparse_dense_matmul sm x = Inr px" and sx: "sx = tf_transpose px"
    using assms(4) by (auto simp: project_def bindS_def split: sum.splits)
  obtain py where py: "sparse_dense_matmul sm y = Inr py" and sy: "sy = tf_transpose py"
    using assms(5) by (auto simp: project_def bindS_def split: sum.splits)
  obtain D N where shx: "shape px = [D, N]" and lx: "length (buf px) = D * N"
    using matmul_result[OF px] by blast
  have shy: "shape py = [D, N]" and ly: "length (buf py) = D * N"
    using px py shx assms(1)
    by (auto simp: sparse_dense_matmul_def split: list.splits if_splits)
  have "sparse_dense_matmul sm (tlin a x b y) = Inr (tlin a px b py)"
    using assms(1-3) px py by (rule matmul_linear)
  then show "project sm (tlin a x b y) = Inr (tlin a sx b sy)"
    by (simp add: project_def bindS_def sx sy transpose_linear[OF shx shy lx ly])
  show "shape sx = shape sy" by (simp add: sx sy transpose_result[OF shx] transpose_result[OF shy])
  show "\<exists>N D. shape sx = [N, D]" by (simp add: sx transpose_result[OF shx])
  show "wf sx" by (simp add: wf_def sx transpose_result[OF shx])
  show "wf sy" by (simp add: wf_def sy transpose_result[OF shy])
qed

lemma complex_linear:
  assumes "length (buf p) = length (buf q)"
  shows "tf_complex (tlin a p b q) (tf_zeros_like (tlin a p b q))
       = tlin (of_real a) (tf_complex p (tf_zeros_like p)) (of_real b) (tf_complex q (tf_zeros_like q))"
proof -
  have "buf (tf_complex (tlin a p b q) (tf_zeros_like (tlin a p b q)))
      = buf (tlin (of_real a) (tf_complex p (tf_zeros_like p)) (of_real b)
               (tf_complex q (tf_zeros_like q)))"
    using assms
    by (intro nth_equalityI)
       (simp_all add: tf_complex_def tf_zeros_like_def tlin_def complex_eq_iff)
  then show ?thesis by (simp add: tf_complex_def tlin_def)
qed

lemma complex_result:
  "shape (tf_complex p (tf_zeros_like p)) = shape p"
  "length (buf (tf_complex p (tf_zeros_like p))) = length (buf p)"
  by (simp_all add: tf_complex_def tf_zeros_like_def)

lemma row_cell_in_range:
  fixes n :: nat
  assumes "n < len div D" "j < D"
  shows "n * D + j < len"
proof -
  have "n * D + j < (len div D) * D" using assms by (rule cell_in_range)
  also have "\<dots> \<le> len" by simp
  finally show ?thesis .
qed

lemma fft_linear:
  assumes "shape X = shape Y" "length (buf X) = length (buf Y)"
  shows "tf_fft (tlin a X b Y) = tlin a (tf_fft X) b (tf_fft Y)"
proof -
  let ?D = "last (shape X)" and ?N = "length (buf X) div last (shape X)"
  let ?F = "\<lambda>t n k. \<Sum>j<?D. elem (buf t) ?D n j * cis (- (2 * pi * real j * real k / real ?D))"
  have "tabulate2 ?N ?D (?F (tlin a X b Y)) = tabulate2 ?N ?D (\<lambda>n k. a * ?F X n k + b * ?F Y n k)"
  proof (rule tabulate2_cong)
    fix n k assume n: "n < ?N" and "k < ?D"
    have "elem (buf (tlin a X b Y)) ?D n j = a * elem (buf X) ?D n j + b * elem (buf Y) ?D n j"
      if "j < ?D" for j
      using row_cell_in_range[OF n that] assms(2) by (simp add: elem_tlin)
    then show "?F (tlin a X b Y) n k = a * ?F X n k + b * ?F Y n k"
      by (simp add: sum_distrib_left sum.distrib[symmetric] algebra_simps)
  qed
  then show ?thesis using assms by (simp add: tf_fft_def Let_def tlin_tabulate2)
qed

lemma ifft_linear:
  assumes "shape X = shape Y" "length (buf X) = length (buf Y)"
  shows "tf_ifft (tlin a X b Y) = tlin a (tf_ifft X) b (tf_ifft Y)"
proof -
  let ?D = "last (shape X)" and ?N = "length (buf X) div last (shape X)"
  let ?F = "\<lambda>t n k. (\<Sum>j<?D. elem (buf t) ?D n j * cis (2 * pi * real j * real k / real ?D))
                / of_nat ?D"
  have "tabulate2 ?N ?D (?F (tlin a X b Y)) = tabulate2 ?N ?D (\<lambda>n k. a * ?F X n k + b * ?F Y n k)"
  proof (rule tabulate2_cong)
    fix n k assume n: "n < ?N" and "k < ?D"
    have "elem (buf (tlin a X b Y)) ?D n j = a * elem (buf X) ?D n j + b * elem (buf Y) ?D n j"
      if "j < ?D" for j
      using row_cell_in_range[OF n that] assms(2) by (simp add: elem_tlin)
    then have "(\<Sum>j<?D. elem (buf (tlin a X b Y)) ?D n j * cis (2 * pi * real j * real k / real ?D))
        = a * (\<Sum>j<?D. elem (buf X) ?D n j * cis (2 * pi * real j * real k / real ?D))
        + b * (\<Sum>j<?D. elem (buf Y) ?D n j * cis (2 * pi * real j * real k / real ?D))"
      by (simp add: sum_distrib_left sum.distrib[symmetric] algebra_simps)
    then show "?F (tlin a X b Y) n k = a * ?F X n k + b * ?F Y n k"
      by (simp only: add_divide_distrib times_divide_eq_right)
  qed
  then show ?thesis using assms by (simp add: tf_ifft_def Let_def tlin_tabulate2)
qed

lemma fft_result:
  assumes "shape X = [N, D]" "length (buf X) = N * D"
  shows "shape (tf_fft X) = [N, D]" "length (buf (tf_fft X)) = N * D"
  using assms by (simp_all add: tf_fft_def Let_def)

lemma ifft_result:
  assumes "shape X = [N, D]" "length (buf X) = N * D"
  shows "shape (tf_ifft X) = [N, D]" "length (buf (tf_ifft X)) = N * D"
  using assms by (simp_all add: tf_ifft_def Let_def)

lemma multiply_linear:
  assumes "shape X = shape Y" "wf X" "wf Y"
    and "tf_multiply (Some X) (Some Z) = Inr PX" "tf_multiply (Some Y) (Some Z) = Inr PY"
  shows "tf_multiply (Some (tlin a X b Y)) (Some Z) = Inr (tlin a PX b PY)"
proof -
  obtain r1 c1 r2 c2 where sX: "shape X = [r1, c1]" and sZ: "shape Z = [r2, c2]"
    using assms(4) by (auto simp: tf_multiply_def split: list.splits if_splits)
  have sY: "shape Y = [r1, c1]" using assms(1) sX by simp
  have ok: "(r1 = r2 \<or> r1 = 1 \<or> r2 = 1) \<and> (c1 = c2 \<or> c1 = 1 \<or> c2 = 1)"
    using assms(4) sX sZ by (auto simp: tf_multiply_def split: if_splits)
  have len: "length (buf X) = r1 * c1" "length (buf Y) = r1 * c1"
    using assms(2,3) by (simp_all add: wf_def sX sY)
  let ?r = "if r1 = 1 then r2 else r1" and ?c = "if c1 = 1 then c2 else c1"
  let ?F = "\<lambda>t i j. elem (buf t) c1 (if r1 = 1 then 0 else i) (if c1 = 1 then 0 else j)
                  * elem (buf Z) c2 (if r2 = 1 then 0 else i) (if c2 = 1 then 0 else j)"
  have PX: "PX = \<lparr>shape = [?r, ?c], buf = tabulate2 ?r ?c (?F X)\<rparr>"
    using assms(4) sX sZ ok by (simp add: tf_multiply_def)
  have PY: "PY = \<lparr>shape = [?r, ?c], buf = tabulate2 ?r ?c (?F Y)\<rparr>"
    using assms(5) sY sZ ok by (simp add: tf_multiply_def)
  have "tabulate2 ?r ?c (?F (tlin a X b Y)) = tabulate2 ?r ?c (\<lambda>i j. a * ?F X i j + b * ?F Y i j)"
  proof (rule tabulate2_cong)
    fix i j assume i: "i < ?r" and j: "j < ?c"
    have i': "(if r1 = 1 then 0 else i) < r1" using i by (simp split: if_splits)
    have j': "(if c1 = 1 then 0 else j) < c1" using j by (simp split: if_splits)
    have "(if r1 = 1 then 0 else i) * c1 + (if c1 = 1 then 0 else j) < r1 * c1"
      using i' j' by (rule cell_in_range)
    then have "elem (buf (tlin a X b Y)) c1 (if r1 = 1 then 0 else i) (if c1 = 1 then 0 else j)
        = a * elem (buf X) c1 (if r1 = 1 then 0 else i) (if c1 = 1 then 0 else j)
        + b * elem (buf Y) c1 (if r1 = 1 then 0 else i) (if c1 = 1 then 0 else j)"
      using len by (intro elem_tlin) simp_all
    then show "?F (tlin a X b Y) i j = a * ?F X i j + b * ?F Y i j"
      by (simp only: algebra_simps)
  qed
  moreover have "tf_multiply (Some (tlin a X b Y)) (Some Z)
      = Inr \<lparr>shape = [?r, ?c], buf = tabulate2 ?r ?c (?F (tlin a X b Y))\<rparr>"
    using sX sZ ok by (simp add: tf_multiply_def)
  ultimately show ?thesis by (simp only: PX PY tlin_tabulate2)
qed

lemma multiply_result:
  assumes "tf_multiply (Some X) (Some Z) = Inr P"
  shows "\<exists>r c. shape P = [r, c] \<and> length (buf P) = r * c"
  using assms by (auto simp: tf_multiply_def split: list.splits if_splits)

lemma multiply_shape:
  assumes "tf_multiply (Some X) (Some Z) = Inr PX" "tf_multiply (Some Y) (Some Z) = Inr PY"
    "shape X = shape Y"
  shows "shape PX = shape PY"
  using assms by (auto simp: tf_multiply_def split: list.splits if_splits)

lemma real_linear:
  assumes "length (buf P) = length (buf Q)"
  shows "tf_real (Some (tlin (of_real a) P (of_real b) Q))
       = Inr (tlin a \<lparr>shape = shape P, buf = map Re (buf P)\<rparr> b \<lparr>shape = shape Q, buf = map Re (buf Q)\<rparr>)"
proof -
  have "map Re (buf (tlin (of_real a) P (of_real b) Q))
      = buf (tlin a \<lparr>shape = shape P, buf = map Re (buf P)\<rparr> b \<lparr>shape = shape Q, buf = map Re (buf Q)\<rparr>)"
    using assms by (intro nth_equalityI) (simp_all add: tlin_def)
  then show ?thesis by (simp add: tf_real_def tlin_def)
qed

lemma reshape_linear:
  assumes "length (buf p) = length (buf q)"
    and "tf_reshape_infer p rest = Inr p'" "tf_reshape_infer q rest = Inr q'"
  shows "tf_reshape_infer (tlin a p b q) rest = Inr (tlin a p' b q')"
  using assms by (auto simp: tf_reshape_infer_def tlin_def Let_def split: if_splits)

lemma fuse_returns:
  assumes "fuse sm1 sm2 f1 f2 shp seq = Inr p"
  obtains sk1 sk2 P where "\<not> seq" "project sm1 f1 = Inr sk1" "project sm2 f2 = Inr sk2"
    "tf_multiply (Some (tf_fft (tf_complex sk1 (tf_zeros_like sk1))))
                 (Some (tf_fft (tf_complex sk2 (tf_zeros_like sk2)))) = Inr P"
    "\<not> length shp < 4"
    "tf_reshape_infer \<lparr>shape = shape (tf_ifft P), buf = map Re (buf (tf_ifft P))\<rparr>
        [shp ! 1, shp ! 2, shp ! 3] = Inr p"
proof -
  have ns: "\<not> seq" using assms fuse_sequential[of sm1 sm2 f1 f2 shp] by (cases seq) auto
  show ?thesis
    using assms ns that
    by (auto simp: fuse_def bindS_def fft_def ifft_def tf_real_def Let_def
          split: sum.splits if_splits)
qed

lemma fuse_linear:
  assumes "shape x = shape y" "wf x" "wf y"
    and "fuse sm1 sm2 x f2 shp seq = Inr px" "fuse sm1 sm2 y f2 shp seq = Inr py"
  shows "fuse sm1 sm2 (tlin a x b y) f2 shp seq = Inr (tlin a px b py)"
proof -
  obtain skx sk2 Px where ns: "\<not> seq" and jx: "project sm1 x = Inr skx"
    and j2: "project sm2 f2 = Inr sk2"
    and mx: "tf_multiply (Some (tf_fft (tf_complex skx (tf_zeros_like skx))))
                 (Some (tf_fft (tf_complex sk2 (tf_zeros_like sk2)))) = Inr Px"
    and rk: "\<not> length shp < 4"
    and rx: "tf_reshape_infer \<lparr>shape = shape (tf_ifft Px), buf = map Re (buf (tf_ifft Px))\<rparr>
        [shp ! 1, shp ! 2, shp ! 3] = Inr px"
    using assms(4) by (rule fuse_returns)
  obtain sky sk2' Py where jy: "project sm1 y = Inr sky"
    and j2': "project sm2 f2 = Inr sk2'"
    and my': "tf_multiply (Some (tf_fft (tf_complex sky (tf_zeros_like sky))))
                 (Some (tf_fft (tf_complex sk2' (tf_zeros_like sk2')))) = Inr Py"
    and ry: "tf_reshape_infer \<lparr>shape = shape (tf_ifft Py), buf = map Re (buf (tf_ifft Py))\<rparr>
        [shp ! 1, shp ! 2, shp ! 3] = Inr py"
    using assms(5) by (rule fuse_returns)
  have [simp]: "sk2' = sk2" using j2 j2' by simp
  let ?cx = "tf_complex skx (tf_zeros_like skx)" and ?cy = "tf_complex sky (tf_zeros_like sky)"
  let ?c2 = "tf_complex sk2 (tf_zeros_like sk2)"
  note pl = project_linear[OF assms(1-3) jx jy]
  have jl: "project sm1 (tlin a x b y) = Inr (tlin a skx b sky)" by (rule pl(1))
  obtain N D where shx: "shape skx = [N, D]" using pl(3) by blast
  have shy: "shape sky = [N, D]" using pl(2) shx by simp
  have lx: "length (buf skx) = N * D" and ly: "length (buf sky) = N * D"
    using pl(4,5) by (simp_all add: wf_def shx shy)
  have cl: "tf_complex (tlin a skx b sky) (tf_zeros_like (tlin a skx b sky))
      = tlin (of_real a) ?cx (of_real b) ?cy"
    by (rule complex_linear) (simp add: lx ly)
  have scx: "shape ?cx = [N, D]" "length (buf ?cx) = N * D"
    and scy: "shape ?cy = [N, D]" "length (buf ?cy) = N * D"
    by (simp_all add: complex_result shx shy lx ly)
  have fl: "tf_fft (tlin (of_real a) ?cx (of_real b) ?cy)
      = tlin (of_real a) (tf_fft ?cx) (of_real b) (tf_fft ?cy)"
    by (rule fft_linear) (simp_all add: scx scy)
  have wfx: "wf (tf_fft ?cx)" and wfy: "wf (tf_fft ?cy)"
    and sfx: "shape (tf_fft ?cx) = shape (tf_fft ?cy)"
    by (simp_all add: wf_def fft_result[OF scx] fft_result[OF scy])
  have ml: "tf_multiply (Some (tlin (of_real a) (tf_fft ?cx) (of_real b) (tf_fft ?cy)))
              (Some (tf_fft ?c2)) = Inr (tlin (of_real a) Px (of_real b) Py)"
    using sfx wfx wfy mx my' by (intro multiply_linear) simp_all
  obtain r c where sPx: "shape Px = [r, c]" and lPx: "length (buf Px) = r * c"
    using multiply_result[OF mx] by blast
  have sPy: "shape Py = [r, c]"
    using multiply_shape[OF mx _ sfx] my' sPx by simp
  have lPy: "length (buf Py) = r * c"
    using multiply_result[OF my'] sPy by auto
  have il: "tf_ifft (tlin (of_real a) Px (of_real b) Py)
      = tlin (of_real a) (tf_ifft Px) (of_real b) (tf_ifft Py)"
    by (rule ifft_linear) (simp_all add: sPx sPy lPx lPy)
  have li: "length (buf (tf_ifft Px)) = length (buf (tf_ifft Py))"
    by (simp add: ifft_result[OF sPx lPx] ifft_result[OF sPy lPy])
  let ?rx = "\<lparr>shape = shape (tf_ifft Px), buf = map Re (buf (tf_ifft Px))\<rparr>"
  let ?ry = "\<lparr>shape = shape (tf_ifft Py), buf = map Re (buf (tf_ifft Py))\<rparr>"
  have rl: "tf_real (Some (tlin (of_real a) (tf_ifft Px) (of_real b) (tf_ifft Py)))
      = Inr (tlin a ?rx b ?ry)"
    by (rule real_linear) (rule li)
  have el: "tf_reshape_infer (tlin a ?rx b ?ry) [shp ! 1, shp ! 2, shp ! 3] = Inr (tlin a px b py)"
    using _ rx ry by (rule reshape_linear) (simp add: li)
  show ?thesis
    using ns rk el
    by (simp add: fuse_def bindS_def jl j2 fft_def ifft_def cl fl ml il rl)
qed

text \<open>
  C9. With the second stream, the sketches and the options fixed, pooling is linear in
  the first stream: if the call returns \<open>px\<close> on \<open>x\<close> and \<open>py\<close> on \<open>y\<close>, two
  tensors of the same shape, then on \<open>a * x + b * y\<close> it returns \<open>a * px + b * py\<close>.
  Entries are exact real numbers here, so the equality is exact.
\<close>

theorem pooling_linear_in_stream1:
  assumes "shape x = shape y" "wf x" "wf y"
    and "fst (compact_bilinear_pooling_layer G x bottom2 D opts w) = Inr px"
    and "fst (compact_bilinear_pooling_layer G y bottom2 D opts w) = Inr py"
  shows "fst (compact_bilinear_pooling_layer G (tlin a x b y) bottom2 D opts w)
           = Inr (tlin a px b py)"
proof -
  note cx = assms(4)[unfolded fst_compact_bilinear_pooling_layer[where ?w0.0 = w]]
  note cy = assms(5)[unfolded fst_compact_bilinear_pooling_layer[where ?w0.0 = w]]
  let ?d1 = "fst (derive_sketch G (rand_h_1 opts) (rand_s_1 opts) (seed_h_1 opts)
                 (seed_s_1 opts) D (last (shape x)) w)"
  let ?d2 = "fst (derive_sketch G (rand_h_2 opts) (rand_s_2 opts) (seed_h_2 opts)
                 (seed_s_2 opts) D (last (shape bottom2)) w)"
  have ne: "shape x \<noteq> []" "shape bottom2 \<noteq> []"
    using cx by (auto split: if_splits)
  obtain sm1 sm2 fx f2 where d1: "?d1 = Inr sm1" and d2: "?d2 = Inr sm2"
    and rx: "tf_reshape_infer x [last (shape x)] = Inr fx"
    and r2: "tf_reshape_infer bottom2 [last (shape bottom2)] = Inr f2"
    and ux: "fuse sm1 sm2 fx f2 (shape x) (sequential opts) = Inr px"
    using cx ne by (auto simp: bindS_def split: sum.splits)
  obtain fy where ry: "tf_reshape_infer y [last (shape x)] = Inr fy"
    and uy: "fuse sm1 sm2 fy f2 (shape x) (sequential opts) = Inr py"
    using cy ne d1 d2 r2 assms(1) by (auto simp: bindS_def split: sum.splits)
  have len: "length (buf x) = length (buf y)"
    using assms(1-3) by (simp add: wf_def)
  have rl: "tf_reshape_infer (tlin a x b y) [last (shape x)] = Inr (tlin a fx b fy)"
    using len rx ry by (rule reshape_linear)
  have sf: "shape fx = shape fy" "wf fx" "wf fy"
    using rx ry len assms(1) by (auto simp: tf_reshape_infer_def wf_def Let_def split: if_splits)
  have "fuse sm1 sm2 (tlin a fx b fy) f2 (shape x) (sequential opts) = Inr (tlin a px b py)"
    using sf ux uy by (rule fuse_linear)
  then show ?thesis
    using ne d1 d2 rl r2
    by (simp add: fst_compact_bilinear_pooling_layer[where ?w0.0 = w] bindS_def)
qed

theorem pooling_linear_in_stream1_witness:
  "fst (compact_bilinear_pooling_layer lcg
       (tlin 2 \<lparr>shape = [1, 1, 1, 2], buf = [1, 2]\<rparr> 3 \<lparr>shape = [1, 1, 1, 2], buf = [0, 1]\<rparr>)
       \<lparr>shape = [1, 1, 1, 2], buf = [3, 4]\<rparr> 2
       \<lparr>rand_h_1 = Some \<lparr>shape = [2], buf = [0, 1]\<rparr>,
        rand_s_1 = Some \<lparr>shape = [2], buf = [1, - 1]\<rparr>,
        rand_h_2 = Some \<lparr>shape = [2], buf = [1, 0]\<rparr>,
        rand_s_2 = Some \<lparr>shape = [2], buf = [1, 1]\<rparr>,
        seed_h_1 = 1, seed_s_1 = 3, seed_h_2 = 5, seed_s_2 = 7,
        sequential = False, compute_size = 128\<rparr>
       \<lparr>rng = 0, stdout = []\<rparr>)
     = Inr (tlin 2 \<lparr>shape = [1, 1, 1, 2], buf = [- 2, - 5]\<rparr>
                 3 \<lparr>shape = [1, 1, 1, 2], buf = [- 3, - 4]\<rparr>)"
  by (rule pooling_linear_in_stream1)
     (simp_all add: fst_compact_bilinear_pooling_layer[where ?w0.0 = "\<lparr>rng = 0, stdout = []\<rparr>"]
        cbp_eval wf_def tabulate2_def elem_def numeral_2_eq_2 sum.lessThan_Suc complex_eq_iff)

section \<open>Streams of different extents\<close>












end
